theory Spec2Isabelle
  imports Main "HOL-Library.Sublist"
begin

section \<open>Pingdom check pause/resume: a model of \<open>pingdom_pause.py\<close>\<close>

text \<open>
  The script fetches all checks with one GET, filters them by name substrings, and
  pauses or resumes the matches with one bulk PUT. The model keeps Python's dynamic
  typing where the script relies on it: the fetched payload is an untyped JSON value,
  every attribute error, type error and \<open>sys.exit\<close> of the script is a branch, and the
  network and the standard output are an explicit trace of events.

  Python text is modelled as ASCII text (\<open>string\<close>); JSON numbers are integers (numbers
  with a fraction or an exponent are outside the model).
\<close>

subsection \<open>Values, exceptions, exits\<close>

datatype json =
    JNull
  | JBool bool
  | JInt int
  | JStr string
  | JArr "json list"
  | JObj "(string \<times> json) list"

text \<open>A JSON object is held as its list of bindings; a key is looked up with \<open>map_of\<close>.\<close>

datatype exn =
    AttributeError
  | TypeError
  | ValueError
  | KeyError
  | JSONDecodeError
  | HTTPError string
  | TransportError string

datatype exit_arg = Code int | Msg string

text \<open>\<open>SysExit\<close> is \<open>sys.exit(arg)\<close>; \<open>Raise\<close> is an exception nobody catches.\<close>

datatype abort = SysExit exit_arg | Raise exn

text \<open>Python's truth value of a JSON value, as used by \<open>or\<close>.\<close>

fun truthy :: "json \<Rightarrow> bool" where
  "truthy JNull = False"
| "truthy (JBool b) = b"
| "truthy (JInt n) = (n \<noteq> 0)"
| "truthy (JStr s) = (s \<noteq> [])"
| "truthy (JArr xs) = (xs \<noteq> [])"
| "truthy (JObj kvs) = (kvs \<noteq> [])"

text \<open>\<open>c.get(key)\<close>: only a dict has \<open>get\<close>; a missing key gives \<open>None\<close>.\<close>

fun py_get :: "json \<Rightarrow> string \<Rightarrow> abort + json" where
  "py_get (JObj kvs) k = Inr (case map_of kvs k of None \<Rightarrow> JNull | Some v \<Rightarrow> v)"
| "py_get _ k = Inl (Raise AttributeError)"

text \<open>\<open>for c in v\<close>: the elements a JSON value yields when iterated.\<close>

fun py_iter :: "json \<Rightarrow> abort + json list" where
  "py_iter (JArr xs) = Inr xs"
| "py_iter (JStr s) = Inr (map (\<lambda>c. JStr [c]) s)"
| "py_iter (JObj kvs) = Inr (map (\<lambda>kv. JStr (fst kv)) kvs)"
| "py_iter _ = Inl (Raise TypeError)"

subsection \<open>Strings\<close>

definition lower_char :: "char \<Rightarrow> char" where
  "lower_char c =
     (let n = (of_char c :: nat) in if 65 \<le> n \<and> n \<le> 90 then char_of (n + 32) else c)"

definition lower :: "string \<Rightarrow> string" where
  "lower s = map lower_char s"

text \<open>\<open>p in s\<close> on two strings: \<open>p\<close> occurs in \<open>s\<close> as a contiguous run.\<close>

fun starts_with :: "string \<Rightarrow> string \<Rightarrow> bool" where
  "starts_with [] s = True"
| "starts_with (a # p) [] = False"
| "starts_with (a # p) (b # s) = (a = b \<and> starts_with p s)"

fun str_in :: "string \<Rightarrow> string \<Rightarrow> bool" where
  "str_in p [] = (p = [])"
| "str_in p (b # s) = (starts_with p (b # s) \<or> str_in p s)"

text \<open>
  \<open>p in v\<close> for a string \<open>p\<close> and any value \<open>v\<close>: substring test on a string, element
  test on a list, key test on a dict, \<open>TypeError\<close> on a value that is not a container.
\<close>

fun py_in :: "string \<Rightarrow> json \<Rightarrow> abort + bool" where
  "py_in p (JStr s) = Inr (str_in p s)"
| "py_in p (JArr xs) = Inr (JStr p \<in> set xs)"
| "py_in p (JObj kvs) = Inr (p \<in> fst ` set kvs)"
| "py_in p _ = Inl (Raise TypeError)"

text \<open>\<open>any(p in v for p in pats)\<close>: stops at the first pattern found, or at an exception.\<close>

fun any_in :: "string list \<Rightarrow> json \<Rightarrow> abort + bool" where
  "any_in [] v = Inr False"
| "any_in (p # ps) v =
     (case py_in p v of
        Inl a \<Rightarrow> Inl a
      | Inr found \<Rightarrow> if found then Inr True else any_in ps v)"

text \<open>\<open>v.lower()\<close>: only a string has \<open>lower\<close>.\<close>

fun py_lower :: "json \<Rightarrow> abort + json" where
  "py_lower (JStr s) = Inr (JStr (lower s))"
| "py_lower _ = Inl (Raise AttributeError)"

text \<open>\<open>c.get("name") or ""\<close>.\<close>

definition name_or_empty :: "json \<Rightarrow> abort + json" where
  "name_or_empty c =
     (case py_get c ''name'' of
        Inl a \<Rightarrow> Inl a
      | Inr v \<Rightarrow> Inr (if truthy v then v else JStr []))"

subsection \<open>Matcher\<close>

text \<open>The loop of \<open>filter_checks\<close>, with \<open>matched\<close> as the list built so far.\<close>

fun filter_loop :: "string list \<Rightarrow> json list \<Rightarrow> json list \<Rightarrow> abort + json list" where
  "filter_loop pats [] matched = Inr matched"
| "filter_loop pats (c # cs) matched =
     (case name_or_empty c of
        Inl a \<Rightarrow> Inl a
      | Inr v \<Rightarrow>
          (case py_lower v of
             Inl a \<Rightarrow> Inl a
           | Inr name \<Rightarrow>
               (case any_in pats name of
                  Inl a \<Rightarrow> Inl a
                | Inr found \<Rightarrow>
                    if found then filter_loop pats cs (matched @ [c])
                    else filter_loop pats cs matched)))"

definition filter_checks :: "json \<Rightarrow> string list \<Rightarrow> abort + json list" where
  "filter_checks checks patterns =
     (let pats = map lower patterns in
      case py_iter checks of
        Inl a \<Rightarrow> Inl a
      | Inr cs \<Rightarrow> filter_loop pats cs [])"

text \<open>
  The case-sensitive branch of \<open>main\<close>:
  \<open>[c for c in checks if any(p in (c.get("name") or "") for p in pats)]\<close>.
\<close>

fun filter_cs :: "string list \<Rightarrow> json list \<Rightarrow> abort + json list" where
  "filter_cs pats [] = Inr []"
| "filter_cs pats (c # cs) =
     (case name_or_empty c of
        Inl a \<Rightarrow> Inl a
      | Inr name \<Rightarrow>
          (case any_in pats name of
             Inl a \<Rightarrow> Inl a
           | Inr found \<Rightarrow>
               (case filter_cs pats cs of
                  Inl a \<Rightarrow> Inl a
                | Inr rest \<Rightarrow> Inr (if found then c # rest else rest))))"

text \<open>Step 2 of \<open>main\<close>: the branch on \<open>--case-sensitive\<close>.\<close>

definition select_matched :: "bool \<Rightarrow> json \<Rightarrow> string list \<Rightarrow> abort + json list" where
  "select_matched case_sensitive checks patterns =
     (if case_sensitive then
        (case py_iter checks of
           Inl a \<Rightarrow> Inl a
         | Inr cs \<Rightarrow> filter_cs patterns cs)
      else filter_checks checks patterns)"

subsection \<open>Integers and their decimal text\<close>

definition digit_char :: "nat \<Rightarrow> char" where
  "digit_char d = char_of (48 + d)"

text \<open>
  \<open>str(i)\<close> on an integer (one within the interpreter's limit for decimal text, as
  every integer that \<open>int\<close> or the JSON decoder returns is).
\<close>

function str_nat :: "nat \<Rightarrow> string" where
  "str_nat n = (if n < 10 then [digit_char n] else str_nat (n div 10) @ [digit_char (n mod 10)])"
  by pat_completeness auto
termination
  by (relation "measure id") auto

declare str_nat.simps [simp del]

definition str_int :: "int \<Rightarrow> string" where
  "str_int i = (if i < 0 then CHR ''-'' # str_nat (nat (- i)) else str_nat (nat i))"

text \<open>\<open>sep.join(xs)\<close>.\<close>

fun join :: "string \<Rightarrow> string list \<Rightarrow> string" where
  "join sep [] = []"
| "join sep [x] = x"
| "join sep (x # y # ys) = x @ sep @ join sep (y # ys)"

text \<open>Whitespace as \<open>str.strip\<close> sees it (the ASCII part).\<close>

definition is_space :: "char \<Rightarrow> bool" where
  "is_space c = (let n = (of_char c :: nat) in (9 \<le> n \<and> n \<le> 13) \<or> (28 \<le> n \<and> n \<le> 32))"

definition strip :: "string \<Rightarrow> string" where
  "strip s = rev (dropWhile is_space (rev (dropWhile is_space s)))"

definition is_digit :: "char \<Rightarrow> bool" where
  "is_digit c = (let n = (of_char c :: nat) in 48 \<le> n \<and> n \<le> 57)"

definition digit_val :: "char \<Rightarrow> nat" where
  "digit_val c = of_char c - 48"

text \<open>
  Whitespace as \<open>int(s)\<close> skips it around the literal: the blank, tab, newline, vertical
  tab, form feed and carriage return. The separators \<open>0x1C\<close> to \<open>0x1F\<close>, which
  \<open>str.strip\<close> removes, are not skipped: \<open>int\<close> raises on them.
\<close>

definition is_int_space :: "char \<Rightarrow> bool" where
  "is_int_space c = (let n = (of_char c :: nat) in (9 \<le> n \<and> n \<le> 13) \<or> n = 32)"

definition int_strip :: "string \<Rightarrow> string" where
  "int_strip s = rev (dropWhile is_int_space (rev (dropWhile is_int_space s)))"

text \<open>
  The digits of an integer literal as \<open>int(s)\<close> accepts them: at least one digit, single
  underscores between digits only.
\<close>

fun int_digits :: "bool \<Rightarrow> nat \<Rightarrow> string \<Rightarrow> nat option" where
  "int_digits after_digit acc [] = (if after_digit then Some acc else None)"
| "int_digits after_digit acc (c # cs) =
     (if is_digit c then int_digits True (10 * acc + digit_val c) cs
      else if c = CHR ''_'' \<and> after_digit then int_digits False acc cs
      else None)"

text \<open>
  The interpreter's limit on the conversion between text and integers (the default
  \<open>sys.int_max_str_digits\<close>): a literal with more digits makes \<open>int\<close> raise.
\<close>

definition MAX_STR_DIGITS :: nat where
  "MAX_STR_DIGITS = 4300"

definition int_literal :: "string \<Rightarrow> nat option" where
  "int_literal ds =
     (case int_digits False 0 ds of
        None \<Rightarrow> None
      | Some n \<Rightarrow> if length (filter is_digit ds) > MAX_STR_DIGITS then None else Some n)"

definition int_of_str :: "string \<Rightarrow> int option" where
  "int_of_str s =
     (case int_strip s of
        [] \<Rightarrow> None
      | c # cs \<Rightarrow>
          if c = CHR ''-'' then map_option (\<lambda>n. - int n) (int_literal cs)
          else if c = CHR ''+'' then map_option int (int_literal cs)
          else map_option int (int_literal (c # cs)))"

text \<open>\<open>int(v)\<close>.\<close>

fun py_int :: "json \<Rightarrow> abort + int" where
  "py_int (JInt n) = Inr n"
| "py_int (JBool b) = Inr (if b then 1 else 0)"
| "py_int (JStr s) = (case int_of_str s of None \<Rightarrow> Inl (Raise ValueError) | Some n \<Rightarrow> Inr n)"
| "py_int _ = Inl (Raise TypeError)"

subsection \<open>The network and the output\<close>

datatype http_method = GET | PUT

record request =
  meth :: http_method
  url :: string
  headers :: "(string \<times> string) list"
  data :: "(string \<times> string) list"
  timeout :: nat

text \<open>
  A response as the script reads it: \<open>json_body\<close> is what \<open>r.json()\<close> returns, \<open>None\<close>
  when the body does not decode; \<open>content_type\<close> is \<open>r.headers.get("Content-Type")\<close>.
\<close>

record response =
  status_code :: int
  reason :: string
  text_body :: string
  content_type :: "string option"
  json_body :: "json option"

text \<open>The remote service: a transport failure raises, anything else is a response.\<close>

type_synonym network = "request \<Rightarrow> exn + response"

text \<open>
  A printed line keeps the values its f-string interpolates: a header its verb and
  count, an item the name and the id.
\<close>

datatype shown_name = Name json | IdLabel json

datatype out_line =
    DryRunHeader string nat
  | ReportHeader string nat
  | Item shown_name int

datatype event = Http request | Stdout out_line

definition BASE_URL :: string where
  "BASE_URL = ''https://api.pingdom.com/api/3.1''"

definition TIMEOUT :: nat where
  "TIMEOUT = 20"

text \<open>
  \<open>r.raise_for_status()\<close> of the requests library: a 4xx or 5xx status raises
  \<open>HTTPError\<close> with the message built here, any other status returns.
\<close>

definition http_error_msg :: "response \<Rightarrow> string \<Rightarrow> string option" where
  "http_error_msg r u =
     (if 400 \<le> status_code r \<and> status_code r < 500 then
        Some (str_int (status_code r) @ '' Client Error: '' @ reason r @ '' for url: '' @ u)
      else if 500 \<le> status_code r \<and> status_code r < 600 then
        Some (str_int (status_code r) @ '' Server Error: '' @ reason r @ '' for url: '' @ u)
      else None)"

subsection \<open>CredentialResolver\<close>

definition get_token :: "(string \<Rightarrow> string option) \<Rightarrow> string \<Rightarrow> abort + string" where
  "get_token environ env_name =
     (case environ env_name of
        None \<Rightarrow> Inl (SysExit (Msg (''ERROR: Missing API token. Set '' @ env_name
                  @ ''=<your-token> in the environment.'')))
      | Some token \<Rightarrow>
          if token = [] then
            Inl (SysExit (Msg (''ERROR: Missing API token. Set '' @ env_name
                  @ ''=<your-token> in the environment.'')))
          else Inr token)"

definition unauthorized :: string where
  "unauthorized = ''ERROR: Unauthorized. Check your API token and account permissions.''"

subsection \<open>CheckSource\<close>

definition get_request :: "(string \<times> string) list \<Rightarrow> request" where
  "get_request hdrs =
     \<lparr>meth = GET, url = BASE_URL @ ''/checks'', headers = hdrs, data = [], timeout = TIMEOUT\<rparr>"

text \<open>
  \<open>fetch_all_checks\<close> sends one GET; the result is the events it caused and either the
  abort or the value under \<open>checks\<close> (the empty list when the key is absent).
\<close>

definition fetch_all_checks ::
  "network \<Rightarrow> (string \<times> string) list \<Rightarrow> event list \<times> (abort + json)" where
  "fetch_all_checks net hdrs =
     (let req = get_request hdrs in
      ([Http req],
       (case net req of
          Inl e \<Rightarrow> Inl (Raise e)
        | Inr r \<Rightarrow>
            if status_code r = 401 then Inl (SysExit (Msg unauthorized))
            else
              (case http_error_msg r (url req) of
                 Some m \<Rightarrow> Inl (Raise (HTTPError m))
               | None \<Rightarrow>
                   (case json_body r of
                      None \<Rightarrow> Inl (Raise JSONDecodeError)
                    | Some d \<Rightarrow>
                        (case d of
                           JObj kvs \<Rightarrow>
                             Inr (case map_of kvs ''checks'' of None \<Rightarrow> JArr [] | Some v \<Rightarrow> v)
                         | _ \<Rightarrow> Inl (Raise AttributeError)))))))"

subsection \<open>StateTransitioner\<close>

definition payload :: "int list \<Rightarrow> bool \<Rightarrow> (string \<times> string) list" where
  "payload check_ids pause =
     [(''paused'', if pause then ''true'' else ''false'')]
     @ (if check_ids \<noteq> [] then [(''checkids'', join '','' (map str_int check_ids))] else [])"

definition put_request :: "(string \<times> string) list \<Rightarrow> int list \<Rightarrow> bool \<Rightarrow> request" where
  "put_request hdrs check_ids pause =
     \<lparr>meth = PUT, url = BASE_URL @ ''/checks'', headers = hdrs,
      data = payload check_ids pause, timeout = TIMEOUT\<rparr>"

definition failed_msg :: "response \<Rightarrow> string \<Rightarrow> string" where
  "failed_msg r e =
     (let msg = strip (text_body r) in
      ''ERROR: API request failed ('' @ str_int (status_code r) @ ''). ''
        @ (if msg \<noteq> [] then msg else e))"

definition bulk_pause_or_resume ::
  "network \<Rightarrow> (string \<times> string) list \<Rightarrow> int list \<Rightarrow> bool \<Rightarrow> event list \<times> (abort + json)" where
  "bulk_pause_or_resume net hdrs check_ids pause =
     (let req = put_request hdrs check_ids pause in
      ([Http req],
       (case net req of
          Inl e \<Rightarrow> Inl (Raise e)
        | Inr r \<Rightarrow>
            if status_code r = 401 then Inl (SysExit (Msg unauthorized))
            else if status_code r = 404 then
              Inl (SysExit (Msg ''ERROR: Endpoint not found. Verify API base URL and version.''))
            else
              (case http_error_msg r (url req) of
                 Some e \<Rightarrow> Inl (SysExit (Msg (failed_msg r e)))
               | None \<Rightarrow>
                   if starts_with ''application/json''
                        (case content_type r of None \<Rightarrow> [] | Some ct \<Rightarrow> ct)
                   then (case json_body r of
                           None \<Rightarrow> Inl (Raise JSONDecodeError)
                         | Some d \<Rightarrow> Inr d)
                   else Inr (JObj [])))))"

subsection \<open>Orchestrator\<close>

datatype action = Pause | Resume

text \<open>The parsed command line (\<open>argparse\<close> itself is not modelled).\<close>

record args =
  action :: action
  patterns :: "string list"
  token_env :: string
  dry_run :: bool
  case_sensitive :: bool

text \<open>\<open>c[key]\<close>: a missing key raises; a value that is not a dict has no string index.\<close>

fun py_item :: "json \<Rightarrow> string \<Rightarrow> abort + json" where
  "py_item (JObj kvs) k =
     (case map_of kvs k of None \<Rightarrow> Inl (Raise KeyError) | Some v \<Rightarrow> Inr v)"
| "py_item _ k = Inl (Raise TypeError)"

text \<open>\<open>[int(c["id"]) for c in matched if "id" in c]\<close>.\<close>

fun matched_ids_of :: "json list \<Rightarrow> abort + int list" where
  "matched_ids_of [] = Inr []"
| "matched_ids_of (c # cs) =
     (case py_in ''id'' c of
        Inl a \<Rightarrow> Inl a
      | Inr has_id \<Rightarrow>
          if has_id then
            (case py_item c ''id'' of
               Inl a \<Rightarrow> Inl a
             | Inr v \<Rightarrow>
                 (case py_int v of
                    Inl a \<Rightarrow> Inl a
                  | Inr n \<Rightarrow>
                      (case matched_ids_of cs of
                         Inl a \<Rightarrow> Inl a
                       | Inr ns \<Rightarrow> Inr (n # ns))))
          else matched_ids_of cs)"

text \<open>\<open>c.get("name", f"id:{c.get('id')}")\<close>: the value under \<open>name\<close> when the key is there.\<close>

fun shown_name_of :: "json \<Rightarrow> abort + shown_name" where
  "shown_name_of (JObj kvs) =
     Inr (case map_of kvs ''name'' of
            Some v \<Rightarrow> Name v
          | None \<Rightarrow> IdLabel (case map_of kvs ''id'' of None \<Rightarrow> JNull | Some i \<Rightarrow> i))"
| "shown_name_of _ = Inl (Raise AttributeError)"

fun matched_names_of :: "json list \<Rightarrow> abort + shown_name list" where
  "matched_names_of [] = Inr []"
| "matched_names_of (c # cs) =
     (case shown_name_of c of
        Inl a \<Rightarrow> Inl a
      | Inr n \<Rightarrow>
          (case matched_names_of cs of
             Inl a \<Rightarrow> Inl a
           | Inr ns \<Rightarrow> Inr (n # ns)))"

text \<open>\<open>for name, cid in zip(matched_names, matched_ids): print(...)\<close>.\<close>

definition item_lines :: "shown_name list \<Rightarrow> int list \<Rightarrow> event list" where
  "item_lines names ids = map (\<lambda>(name, cid). Stdout (Item name cid)) (zip names ids)"

definition session_headers :: "string \<Rightarrow> (string \<times> string) list" where
  "session_headers token =
     [(''Authorization'', ''Bearer '' @ token),
      (''Accept'', ''application/json''),
      (''Content-Type'', ''application/x-www-form-urlencoded'')]"

definition no_patterns :: string where
  "no_patterns =
     ''No patterns provided. Pass one or more strings to match (e.g., `pause api checkout`).''"

definition no_matches :: string where
  "no_matches = ''No checks matched the provided patterns. Nothing to do.''"

text \<open>
  \<open>main\<close>, from the parsed arguments on: the events of the run in order, and how it
  ended (\<open>Inr ()\<close> when \<open>main\<close> returns).
\<close>

definition main ::
  "args \<Rightarrow> (string \<Rightarrow> string option) \<Rightarrow> network \<Rightarrow> event list \<times> (abort + unit)" where
  "main a environ net =
     (if patterns a = [] then ([], Inl (SysExit (Msg no_patterns)))
      else
        (case get_token environ (token_env a) of
           Inl x \<Rightarrow> ([], Inl x)
         | Inr token \<Rightarrow>
             (let hdrs = session_headers token;
                  (ev1, fetched) = fetch_all_checks net hdrs
              in case fetched of
                   Inl x \<Rightarrow> (ev1, Inl x)
                 | Inr checks \<Rightarrow>
                     (case select_matched (case_sensitive a) checks (patterns a) of
                        Inl x \<Rightarrow> (ev1, Inl x)
                      | Inr matched \<Rightarrow>
                          if matched = [] then (ev1, Inl (SysExit (Msg no_matches)))
                          else
                            (case matched_ids_of matched of
                               Inl x \<Rightarrow> (ev1, Inl x)
                             | Inr matched_ids \<Rightarrow>
                                 (case matched_names_of matched of
                                    Inl x \<Rightarrow> (ev1, Inl x)
                                  | Inr matched_names \<Rightarrow>
                                      if dry_run a then
                                        (ev1
                                         @ [Stdout (DryRunHeader
                                              (if action a = Pause then ''PAUSE'' else ''RESUME'')
                                              (length matched_ids))]
                                         @ item_lines matched_names matched_ids,
                                         Inl (SysExit (Code 0)))
                                      else
                                        (let pause_flag = (action a = Pause);
                                             (ev2, res) =
                                               bulk_pause_or_resume net hdrs matched_ids pause_flag
                                         in case res of
                                              Inl x \<Rightarrow> (ev1 @ ev2, Inl x)
                                            | Inr _ \<Rightarrow>
                                                (ev1 @ ev2
                                                 @ [Stdout (ReportHeader
                                                      (if pause_flag then ''Paused'' else ''Resumed'')
                                                      (length matched_ids))]
                                                 @ item_lines matched_names matched_ids,
                                                 Inr ()))))))))"

text \<open>The exit status of the process: \<open>sys.exit\<close> with a message and a traceback both give 1.\<close>

fun exit_status :: "abort + unit \<Rightarrow> int" where
  "exit_status (Inr _) = 0"
| "exit_status (Inl (SysExit (Code n))) = n"
| "exit_status (Inl (SysExit (Msg m))) = 1"
| "exit_status (Inl (Raise e)) = 1"

text \<open>The write requests among the events of a run, and the lines it printed.\<close>

fun puts :: "event list \<Rightarrow> request list" where
  "puts [] = []"
| "puts (Http r # evs) = (if meth r = PUT then r # puts evs else puts evs)"
| "puts (Stdout l # evs) = puts evs"

fun printed :: "event list \<Rightarrow> out_line list" where
  "printed [] = []"
| "printed (Http r # evs) = printed evs"
| "printed (Stdout l # evs) = l # printed evs"

subsection \<open>The data model of the specification\<close>

text \<open>
  A Check of the specification is an object whose \<open>name\<close> is a string; the service may
  leave the name out or send \<open>null\<close>, which the script reads as the empty name.
  \<open>name_text\<close> is the name of such a check, \<open>None\<close> on any other value.
\<close>

fun name_text :: "json \<Rightarrow> string option" where
  "name_text (JObj kvs) =
     (case map_of kvs ''name'' of
        None \<Rightarrow> Some []
      | Some JNull \<Rightarrow> Some []
      | Some (JStr s) \<Rightarrow> Some s
      | Some _ \<Rightarrow> None)"
| "name_text _ = None"

text \<open>The case rule of a MatchSpec: both operands lowercased unless case-sensitive.\<close>

definition case_rule :: "bool \<Rightarrow> string \<Rightarrow> string" where
  "case_rule sens s = (if sens then s else lower s)"

text \<open>The value under \<open>id\<close> of a check, \<open>None\<close> when it has no such key.\<close>

fun id_field :: "json \<Rightarrow> json option" where
  "id_field (JObj kvs) = map_of kvs ''id''"
| "id_field _ = None"

text \<open>
  Reading a comma-joined decimal list back: the fields between the commas, each read as
  a decimal integer with an optional minus sign.
\<close>

fun split_on :: "char \<Rightarrow> string \<Rightarrow> string list" where
  "split_on sep [] = [] # []"
| "split_on sep (c # cs) =
     (if c = sep then [] # split_on sep cs
      else (case split_on sep cs of w # ws \<Rightarrow> (c # w) # ws | [] \<Rightarrow> [c] # []))"

definition dec_nat :: "string \<Rightarrow> nat" where
  "dec_nat s = foldl (\<lambda>a c. 10 * a + digit_val c) 0 s"

definition dec_int :: "string \<Rightarrow> int" where
  "dec_int s =
     (case s of
        [] \<Rightarrow> 0
      | c # cs \<Rightarrow> if c = CHR ''-'' then - int (dec_nat cs) else int (dec_nat s))"

subsection \<open>Example runs\<close>

text \<open>The checks of the specification's example scenarios.\<close>

definition example_checks :: "json list" where
  "example_checks =
     [JObj [(''id'', JInt 1), (''name'', JStr ''api-prod'')],
      JObj [(''id'', JInt 2), (''name'', JStr ''web-staging'')],
      JObj [(''id'', JInt 3), (''name'', JStr ''API-internal'')]]"

definition example_env :: "string \<Rightarrow> string option" where
  "example_env v = (if v = ''PINGDOM_API_TOKEN'' then Some ''secret'' else None)"

definition ok_response :: "json \<Rightarrow> response" where
  "ok_response body =
     \<lparr>status_code = 200, reason = ''OK'', text_body = [],
      content_type = Some ''application/json'', json_body = Some body\<rparr>"

text \<open>A service that lists \<open>checks\<close> on GET and accepts every PUT.\<close>

definition service :: "json list \<Rightarrow> network" where
  "service checks req =
     (if meth req = GET then Inr (ok_response (JObj [(''checks'', JArr checks)]))
      else Inr (ok_response (JObj [(''message'', JStr ''Modification of checks was successful'')])))"

definition example_args :: "action \<Rightarrow> string list \<Rightarrow> bool \<Rightarrow> bool \<Rightarrow> args" where
  "example_args act pats dry sens =
     \<lparr>action = act, patterns = pats, token_env = ''PINGDOM_API_TOKEN'',
      dry_run = dry, case_sensitive = sens\<rparr>"

text \<open>Checks with no usable name: the key absent, or \<open>null\<close>.\<close>

definition nameless_checks :: "json list" where
  "nameless_checks =
     [JObj [(''id'', JInt 7)],
      JObj [(''id'', JInt 8), (''name'', JNull)],
      JObj [(''id'', JInt 9), (''name'', JStr ''Api'')]]"

text \<open>A service that answers requests of one method with a fixed response.\<close>

definition replying :: "http_method \<Rightarrow> response \<Rightarrow> network \<Rightarrow> network" where
  "replying m r net req = (if meth req = m then Inr r else net req)"




definition denied :: response where
  "denied =
     \<lparr>status_code = 401, reason = ''Unauthorized'', text_body = ''denied'',
      content_type = Some ''application/json'', json_body = None\<rparr>"

text \<open>Matched checks of which the first has no \<open>id\<close> and two share one.\<close>

definition partial_checks :: "json list" where
  "partial_checks =
     [JObj [(''name'', JStr ''api-a'')],
      JObj [(''id'', JInt 2), (''name'', JStr ''api-b'')],
      JObj [(''id'', JInt 2), (''name'', JStr ''api-c'')]]"

section \<open>Properties\<close>

subsection \<open>Strings\<close>

lemma starts_with_prefix: "starts_with p s = prefix p s"
  by (induction p s rule: starts_with.induct) simp_all

lemma str_in_sublist: "str_in p s = sublist p s"
  by (induction s) (simp_all add: starts_with_prefix sublist_Cons_right)

lemma lower_Nil_iff: "lower p = [] \<longleftrightarrow> p = []"
  by (simp add: lower_def)

lemma any_in_str: "any_in pats (JStr s) = Inr (\<exists>p\<in>set pats. sublist p s)"
  by (induction pats) (simp_all add: str_in_sublist)

subsection \<open>Matcher\<close>

lemma name_or_empty_text: "name_text c = Some s \<Longrightarrow> name_or_empty c = Inr (JStr s)"
  by (cases c) (auto simp: name_or_empty_def split: option.splits json.splits)

lemma filter_loop_filter:
  assumes "\<forall>c\<in>set cs. name_text c \<noteq> None"
  shows "filter_loop pats cs acc =
           Inr (acc @ filter (\<lambda>c. \<exists>p\<in>set pats. sublist p (lower (the (name_text c)))) cs)"
  using assms
proof (induction cs arbitrary: acc)
  case Nil
  show ?case by simp
next
  case (Cons c cs)
  then obtain s where s: "name_text c = Some s" by auto
  from Cons have rest: "\<forall>c\<in>set cs. name_text c \<noteq> None" by simp
  show ?case
    by (simp add: name_or_empty_text [OF s] s any_in_str Cons.IH [OF rest])
qed

lemma filter_cs_filter:
  assumes "\<forall>c\<in>set cs. name_text c \<noteq> None"
  shows "filter_cs pats cs =
           Inr (filter (\<lambda>c. \<exists>p\<in>set pats. sublist p (the (name_text c))) cs)"
  using assms
proof (induction cs)
  case Nil
  show ?case by simp
next
  case (Cons c cs)
  then obtain s where s: "name_text c = Some s" by auto
  from Cons have rest: "\<forall>c\<in>set cs. name_text c \<noteq> None" by simp
  show ?case
    by (simp add: name_or_empty_text [OF s] s any_in_str Cons.IH [OF rest])
qed

lemma select_matched_filter:
  assumes "\<forall>c\<in>set cs. name_text c \<noteq> None"
  shows "select_matched sens (JArr cs) pats =
           Inr (filter (\<lambda>c. \<exists>p\<in>set pats.
                  sublist (case_rule sens p) (case_rule sens (the (name_text c)))) cs)"
  by (simp add: select_matched_def filter_checks_def case_rule_def
        filter_loop_filter [OF assms] filter_cs_filter [OF assms])

text \<open>
  C1. On every list of checks (objects whose name is a string, absent or null) and every
  list of patterns, the matched list is exactly the checks whose name contains some
  pattern as a substring, both sides lowercased unless case-sensitive; being a
  \<open>filter\<close> of the input it keeps the input order and drops or merges nothing else.
\<close>

theorem matched_is_filter:
  assumes "\<forall>c\<in>set checks. name_text c \<noteq> None"
  shows "select_matched sens (JArr checks) pats =
           Inr (filter (\<lambda>c. \<exists>p\<in>set pats.
                  sublist (case_rule sens p) (case_rule sens (the (name_text c)))) checks)"
  using assms by (rule select_matched_filter)

theorem matched_is_filter_witness:
  "list_all (\<lambda>c. name_text c \<noteq> None) example_checks
   \<and> select_matched False (JArr example_checks) [''api'']
       = Inr [JObj [(''id'', JInt 1), (''name'', JStr ''api-prod'')],
              JObj [(''id'', JInt 3), (''name'', JStr ''API-internal'')]]
   \<and> select_matched True (JArr example_checks) [''API'']
       = Inr [JObj [(''id'', JInt 3), (''name'', JStr ''API-internal'')]]"
proof -
  have wf: "\<forall>c\<in>set example_checks. name_text c \<noteq> None"
    by (simp add: example_checks_def)
  have f1: "filter (\<lambda>c. \<exists>p\<in>set [''api''].
              sublist (case_rule False p) (case_rule False (the (name_text c)))) example_checks
            = [JObj [(''id'', JInt 1), (''name'', JStr ''api-prod'')],
               JObj [(''id'', JInt 3), (''name'', JStr ''API-internal'')]]"
    by code_simp
  have f2: "filter (\<lambda>c. \<exists>p\<in>set [''API''].
              sublist (case_rule True p) (case_rule True (the (name_text c)))) example_checks
            = [JObj [(''id'', JInt 3), (''name'', JStr ''API-internal'')]]"
    by code_simp
  show ?thesis
    using wf matched_is_filter [OF wf, of False "[''api'']"]
      matched_is_filter [OF wf, of True "[''API'']"]
    by (simp only: f1 f2 list_all_iff simp_thms)
qed

subsection \<open>Events of a run\<close>

lemma fetch_events: "fst (fetch_all_checks net hdrs) = [Http (get_request hdrs)]"
  by (simp add: fetch_all_checks_def Let_def)

lemma bulk_events:
  "fst (bulk_pause_or_resume net hdrs ids pause) = [Http (put_request hdrs ids pause)]"
  by (simp add: bulk_pause_or_resume_def Let_def)

lemma puts_append: "puts (xs @ ys) = puts xs @ puts ys"
  by (induction xs rule: puts.induct) simp_all

lemma printed_append: "printed (xs @ ys) = printed xs @ printed ys"
  by (induction xs rule: printed.induct) simp_all

lemma puts_item_lines: "puts (item_lines names ids) = []"
  unfolding item_lines_def by (induction names ids rule: list_induct2') simp_all

lemma printed_item_lines:
  "printed (item_lines names ids) = map (\<lambda>(n, i). Item n i) (zip names ids)"
  unfolding item_lines_def by (induction names ids rule: list_induct2') simp_all

lemma meth_get_request: "meth (get_request hdrs) = GET"
  by (simp add: get_request_def)

lemma meth_put_request: "meth (put_request hdrs ids pause) = PUT"
  by (simp add: put_request_def)

text \<open>
  C2. With \<open>--dry-run\<close> set, no run issues a write request, whatever the environment,
  the service's replies and the patterns are, and however many checks match.
\<close>

theorem dry_run_never_writes:
  assumes "dry_run a"
  shows "puts (fst (main a environ net)) = []"
  using assms
  by (simp add: main_def Let_def split_beta fetch_events puts_append puts_item_lines
        meth_get_request split: sum.splits)

theorem dry_run_never_writes_witness:
  "dry_run (example_args Pause [''api''] True False)
   \<and> puts (fst (main (example_args Pause [''api''] True False) example_env
                 (service example_checks))) = []
   \<and> printed (fst (main (example_args Pause [''api''] True False) example_env
                 (service example_checks)))
       = [DryRunHeader ''PAUSE'' 2,
          Item (Name (JStr ''api-prod'')) 1, Item (Name (JStr ''API-internal'')) 3]"
proof -
  have d: "dry_run (example_args Pause [''api''] True False)"
    by (simp add: example_args_def)
  have p: "printed (fst (main (example_args Pause [''api''] True False) example_env
                 (service example_checks)))
       = [DryRunHeader ''PAUSE'' 2,
          Item (Name (JStr ''api-prod'')) 1, Item (Name (JStr ''API-internal'')) 3]"
    by code_simp
  from d p dry_run_never_writes [OF d, of example_env "service example_checks"]
  show ?thesis by blast
qed

text \<open>
  C8. A run given zero patterns ends at once with the no-patterns message and exit
  status 1; its event list is empty, so neither the fetch nor the write was attempted.
\<close>

theorem no_patterns_no_network:
  assumes "patterns a = []"
  shows "main a environ net = ([], Inl (SysExit (Msg no_patterns)))
         \<and> exit_status (snd (main a environ net)) = 1"
  using assms by (simp add: main_def)

theorem no_patterns_no_network_witness:
  "patterns (example_args Pause [] False False) = []
   \<and> main (example_args Pause [] False False) example_env (service example_checks)
       = ([], Inl (SysExit (Msg no_patterns)))
   \<and> exit_status (snd (main (example_args Pause [] False False) example_env
                         (service example_checks))) = 1"
proof -
  have h: "patterns (example_args Pause [] False False) = []"
    by (simp add: example_args_def)
  from h no_patterns_no_network [OF h, of example_env "service example_checks"]
  show ?thesis by blast
qed

text \<open>
  C7. When the token is set, the fetch succeeds and the filter step returns the empty
  list, the run consists of the one GET and ends with the no-matches message and exit
  status 1; no write request is issued.
\<close>

theorem no_matches_no_write:
  assumes "patterns a \<noteq> []"
    and "get_token environ (token_env a) = Inr token"
    and "snd (fetch_all_checks net (session_headers token)) = Inr checks"
    and "select_matched (case_sensitive a) checks (patterns a) = Inr []"
  shows "main a environ net
           = ([Http (get_request (session_headers token))], Inl (SysExit (Msg no_matches)))
         \<and> exit_status (snd (main a environ net)) = 1
         \<and> puts (fst (main a environ net)) = []"
  using assms
  by (simp add: main_def Let_def split_beta fetch_events meth_get_request)

theorem no_matches_no_write_witness:
  "main (example_args Pause [''db''] False False) example_env (service example_checks)
     = ([Http (get_request (session_headers ''secret''))], Inl (SysExit (Msg no_matches)))
   \<and> exit_status (snd (main (example_args Pause [''db''] False False) example_env
                         (service example_checks))) = 1
   \<and> puts (fst (main (example_args Pause [''db''] False False) example_env
                   (service example_checks))) = []"
proof -
  have p: "patterns (example_args Pause [''db''] False False) \<noteq> []"
    by (simp add: example_args_def)
  have t: "get_token example_env (token_env (example_args Pause [''db''] False False))
             = Inr ''secret''"
    by (simp add: example_args_def example_env_def get_token_def)
  have f: "snd (fetch_all_checks (service example_checks) (session_headers ''secret''))
             = Inr (JArr example_checks)"
    by code_simp
  have m: "select_matched (case_sensitive (example_args Pause [''db''] False False))
             (JArr example_checks) (patterns (example_args Pause [''db''] False False)) = Inr []"
    by code_simp
  from no_matches_no_write [OF p t f m] show ?thesis .
qed

subsection \<open>Decimal text\<close>

lemma digit_val_digit_char: "d < 10 \<Longrightarrow> digit_val (digit_char d) = d"
  by (simp add: digit_val_def digit_char_def)

lemma is_digit_digit_char: "d < 10 \<Longrightarrow> is_digit (digit_char d)"
  by (simp add: is_digit_def digit_char_def)

lemma dec_nat_snoc: "dec_nat (s @ [c]) = 10 * dec_nat s + digit_val c"
  by (simp add: dec_nat_def)

lemma dec_nat_str_nat: "dec_nat (str_nat n) = n"
proof (induction n rule: str_nat.induct)
  case (1 n)
  show ?case
  proof (cases "n < 10")
    case True
    then show ?thesis
      by (simp add: str_nat.simps [of n] dec_nat_def digit_val_digit_char)
  next
    case False
    with 1 have "dec_nat (str_nat (n div 10)) = n div 10" by simp
    with False show ?thesis
      by (simp add: str_nat.simps [of n] dec_nat_snoc digit_val_digit_char)
  qed
qed

lemma str_nat_digits: "\<forall>c\<in>set (str_nat n). is_digit c"
proof (induction n rule: str_nat.induct)
  case (1 n)
  show ?case
  proof (cases "n < 10")
    case True
    then show ?thesis by (simp add: str_nat.simps [of n] is_digit_digit_char)
  next
    case False
    with 1 have "\<forall>c\<in>set (str_nat (n div 10)). is_digit c" by simp
    with False show ?thesis by (simp add: str_nat.simps [of n] is_digit_digit_char)
  qed
qed

lemma str_nat_not_Nil: "str_nat n \<noteq> []"
  by (subst str_nat.simps) simp

lemma not_digit_minus: "\<not> is_digit CHR ''-''"
  by (simp add: is_digit_def)

lemma not_digit_comma: "\<not> is_digit CHR '',''"
  by (simp add: is_digit_def)

lemma dec_int_str_int: "dec_int (str_int i) = i"
proof (cases "i < 0")
  case True
  then show ?thesis by (simp add: str_int_def dec_int_def dec_nat_str_nat)
next
  case False
  obtain c cs where s: "str_nat (nat i) = c # cs"
    using str_nat_not_Nil [of "nat i"] by (cases "str_nat (nat i)") auto
  have "is_digit c" using str_nat_digits [of "nat i"] s by simp
  then have "c \<noteq> CHR ''-''" using not_digit_minus by auto
  moreover have "dec_nat (c # cs) = nat i" using dec_nat_str_nat [of "nat i"] s by simp
  ultimately show ?thesis using False s by (simp add: str_int_def dec_int_def)
qed

lemma str_int_no_comma: "CHR '','' \<notin> set (str_int i)"
  using str_nat_digits not_digit_comma by (auto simp: str_int_def)

lemma split_on_no_sep: "sep \<notin> set x \<Longrightarrow> split_on sep x = [x]"
  by (induction x) auto

lemma split_on_first: "sep \<notin> set x \<Longrightarrow> split_on sep (x @ sep # rest) = x # split_on sep rest"
  by (induction x) auto

lemma split_on_join:
  "xs \<noteq> [] \<Longrightarrow> \<forall>x\<in>set xs. sep \<notin> set x \<Longrightarrow> split_on sep (join [sep] xs) = xs"
  by (induction "[sep]" xs rule: join.induct) (simp_all add: split_on_no_sep split_on_first)

lemma decode_checkids:
  "ids \<noteq> [] \<Longrightarrow> map dec_int (split_on CHR '','' (join '','' (map str_int ids))) = ids"
  by (simp add: split_on_join str_int_no_comma dec_int_str_int map_idI)

text \<open>
  C4. For a non-empty id list the one request of \<open>bulk_pause_or_resume\<close> carries exactly
  two fields: \<open>paused\<close>, the text \<open>true\<close> or \<open>false\<close> of the wanted state, and
  \<open>checkids\<close>, the decimal texts of the ids joined by commas; reading that text back
  field by field gives the id list itself, so order and duplicates are kept.
\<close>

theorem write_request_body:
  assumes "check_ids \<noteq> []"
  shows "fst (bulk_pause_or_resume net hdrs check_ids pause)
           = [Http (put_request hdrs check_ids pause)]
         \<and> data (put_request hdrs check_ids pause)
           = [(''paused'', if pause then ''true'' else ''false''),
              (''checkids'', join '','' (map str_int check_ids))]
         \<and> map dec_int (split_on CHR '','' (join '','' (map str_int check_ids))) = check_ids"
  using assms
  by (simp add: bulk_events put_request_def payload_def decode_checkids)

theorem write_request_body_witness:
  "data (put_request (session_headers ''secret'') [1, 3, 3] False)
     = [(''paused'', ''false''), (''checkids'', ''1,3,3'')]
   \<and> map dec_int (split_on CHR '','' ''1,3,3'') = [1, 3, 3]"
proof -
  have j: "join '','' (map str_int [1, 3, 3]) = ''1,3,3''"
    by code_simp
  have n: "[1, 3, 3] \<noteq> ([] :: int list)"
    by simp
  from write_request_body [OF n, of "service example_checks" "session_headers ''secret''" False]
  show ?thesis
    by (simp only: j if_False simp_thms)
qed

text \<open>
  C10. In a fetched list of checks, a check whose \<open>name\<close> is absent or null is matched
  as if its name were the empty string: it is in the match result exactly when one of
  the patterns is the empty string, case-sensitively or not.
\<close>

theorem nameless_check_matches_iff_empty_pattern:
  assumes "\<forall>c\<in>set checks. name_text c \<noteq> None"
    and "JObj kvs \<in> set checks"
    and "map_of kvs ''name'' = None \<or> map_of kvs ''name'' = Some JNull"
  shows "name_or_empty (JObj kvs) = Inr (JStr [])
         \<and> (\<exists>matched. select_matched sens (JArr checks) pats = Inr matched
               \<and> (JObj kvs \<in> set matched \<longleftrightarrow> [] \<in> set pats))"
proof -
  from assms(3) have n: "name_text (JObj kvs) = Some []" by auto
  have e: "\<And>p. case_rule sens p = [] \<longleftrightarrow> p = []"
    by (simp add: case_rule_def lower_Nil_iff)
  have "(\<exists>p\<in>set pats. sublist (case_rule sens p) (case_rule sens (the (name_text (JObj kvs)))))
          \<longleftrightarrow> [] \<in> set pats"
    using n e by (auto simp: case_rule_def lower_def)
  with assms(2) show ?thesis
    by (simp add: select_matched_filter [OF assms(1)] name_or_empty_text [OF n])
qed

theorem nameless_check_matches_iff_empty_pattern_witness:
  "select_matched False (JArr nameless_checks) [''api'', []] = Inr nameless_checks
   \<and> select_matched True (JArr nameless_checks) [''api'']  = Inr []
   \<and> (\<exists>matched. select_matched False (JArr nameless_checks) [''api''] = Inr matched
         \<and> (JObj [(''id'', JInt 8), (''name'', JNull)] \<in> set matched
              \<longleftrightarrow> [] \<in> set [''api'']))"
proof -
  have wf: "\<forall>c\<in>set nameless_checks. name_text c \<noteq> None"
    by (simp add: nameless_checks_def)
  have m: "JObj [(''id'', JInt 8), (''name'', JNull)] \<in> set nameless_checks"
    by (simp add: nameless_checks_def)
  have k: "map_of [(''id'', JInt 8), (''name'', JNull)] ''name'' = None
           \<or> map_of [(''id'', JInt 8), (''name'', JNull)] ''name'' = Some JNull"
    by simp
  have a: "select_matched False (JArr nameless_checks) [''api'', []] = Inr nameless_checks"
    by code_simp
  have b: "select_matched True (JArr nameless_checks) [''api'']  = Inr []"
    by code_simp
  from a b nameless_check_matches_iff_empty_pattern [OF wf m k, of False "[''api'']"]
  show ?thesis by blast
qed

subsection \<open>Results of the two calls\<close>



lemma fetch_result_401:
  "net (get_request hdrs) = Inr r \<Longrightarrow> status_code r = 401
   \<Longrightarrow> snd (fetch_all_checks net hdrs) = Inl (SysExit (Msg unauthorized))"
  by (simp add: fetch_all_checks_def Let_def)


lemma bulk_result_401:
  "net (put_request hdrs ids pause) = Inr r \<Longrightarrow> status_code r = 401
   \<Longrightarrow> snd (bulk_pause_or_resume net hdrs ids pause) = Inl (SysExit (Msg unauthorized))"
  by (simp add: bulk_pause_or_resume_def Let_def)





subsection \<open>The shape of a run\<close>

lemma main_fetch_failed:
  assumes "patterns a \<noteq> []" "get_token environ (token_env a) = Inr token"
    "snd (fetch_all_checks net (session_headers token)) = Inl x"
  shows "main a environ net = ([Http (get_request (session_headers token))], Inl x)"
  using assms by (simp add: main_def Let_def split_beta fetch_events)

lemma main_matched:
  assumes "patterns a \<noteq> []" "get_token environ (token_env a) = Inr token"
    "snd (fetch_all_checks net (session_headers token)) = Inr checks"
    "select_matched (case_sensitive a) checks (patterns a) = Inr matched" "matched \<noteq> []"
    "matched_ids_of matched = Inr ids" "matched_names_of matched = Inr names"
  shows "main a environ net =
    (if dry_run a then
       ([Http (get_request (session_headers token)),
         Stdout (DryRunHeader (if action a = Pause then ''PAUSE'' else ''RESUME'') (length ids))]
        @ item_lines names ids, Inl (SysExit (Code 0)))
     else
       (case snd (bulk_pause_or_resume net (session_headers token) ids (action a = Pause)) of
          Inl x \<Rightarrow>
            ([Http (get_request (session_headers token)),
              Http (put_request (session_headers token) ids (action a = Pause))], Inl x)
        | Inr d \<Rightarrow>
            ([Http (get_request (session_headers token)),
              Http (put_request (session_headers token) ids (action a = Pause)),
              Stdout (ReportHeader (if action a = Pause then ''Paused'' else ''Resumed'')
                (length ids))]
             @ item_lines names ids, Inr ())))"
  using assms
  by (simp add: main_def Let_def split_beta fetch_events bulk_events split: sum.splits)

lemma Http_item_lines: "Http req \<notin> set (item_lines names ids)"
  by (auto simp: item_lines_def)

lemma main_events:
  assumes "Http req \<in> set (fst (main a environ net))"
  shows "\<exists>token. patterns a \<noteq> [] \<and> get_token environ (token_env a) = Inr token
           \<and> (req = get_request (session_headers token)
               \<or> (\<exists>checks matched ids names.
                     snd (fetch_all_checks net (session_headers token)) = Inr checks
                     \<and> select_matched (case_sensitive a) checks (patterns a) = Inr matched
                     \<and> matched \<noteq> [] \<and> matched_ids_of matched = Inr ids
                     \<and> matched_names_of matched = Inr names \<and> \<not> dry_run a
                     \<and> req = put_request (session_headers token) ids (action a = Pause)))"
  using assms
  by (auto simp: main_def Let_def split_beta fetch_events bulk_events Http_item_lines
        split: sum.splits if_splits)

text \<open>
  C6. In every run, a 401 response to a request the run sent (the read or the write)
  ends the run with the unauthorized message and exit status 1, and nothing is
  printed: on the read the GET is the run's only event (no write follows), on the write
  the events are the GET and the PUT and no report follows.
\<close>

theorem unauthorized_terminates:
  assumes "Http req \<in> set (fst (main a environ net))"
    and "net req = Inr r"
    and "status_code r = 401"
  shows "snd (main a environ net) = Inl (SysExit (Msg unauthorized))
         \<and> exit_status (snd (main a environ net)) = 1
         \<and> printed (fst (main a environ net)) = []
         \<and> (meth req = GET \<longrightarrow> fst (main a environ net) = [Http req])
         \<and> (meth req = PUT \<longrightarrow>
               (\<exists>g. meth g = GET \<and> fst (main a environ net) = [Http g, Http req]))"
proof -
  from main_events [OF assms(1)] obtain token where
    p: "patterns a \<noteq> []" and t: "get_token environ (token_env a) = Inr token" and
    c: "req = get_request (session_headers token)
        \<or> (\<exists>checks matched ids names.
              snd (fetch_all_checks net (session_headers token)) = Inr checks
              \<and> select_matched (case_sensitive a) checks (patterns a) = Inr matched
              \<and> matched \<noteq> [] \<and> matched_ids_of matched = Inr ids
              \<and> matched_names_of matched = Inr names \<and> \<not> dry_run a
              \<and> req = put_request (session_headers token) ids (action a = Pause))"
    by blast
  from c show ?thesis
  proof
    assume g: "req = get_request (session_headers token)"
    with assms(2,3) have "snd (fetch_all_checks net (session_headers token))
        = Inl (SysExit (Msg unauthorized))"
      using fetch_result_401 [of net "session_headers token" r] by simp
    from main_fetch_failed [OF p t this] g show ?thesis
      by (simp add: meth_get_request)
  next
    assume "\<exists>checks matched ids names.
              snd (fetch_all_checks net (session_headers token)) = Inr checks
              \<and> select_matched (case_sensitive a) checks (patterns a) = Inr matched
              \<and> matched \<noteq> [] \<and> matched_ids_of matched = Inr ids
              \<and> matched_names_of matched = Inr names \<and> \<not> dry_run a
              \<and> req = put_request (session_headers token) ids (action a = Pause)"
    then obtain checks matched ids names where
      f: "snd (fetch_all_checks net (session_headers token)) = Inr checks" and
      s: "select_matched (case_sensitive a) checks (patterns a) = Inr matched" and
      ne: "matched \<noteq> []" and i: "matched_ids_of matched = Inr ids" and
      n: "matched_names_of matched = Inr names" and d: "\<not> dry_run a" and
      q: "req = put_request (session_headers token) ids (action a = Pause)"
      by blast
    from q assms(2,3) have "snd (bulk_pause_or_resume net (session_headers token) ids
        (action a = Pause)) = Inl (SysExit (Msg unauthorized))"
      using bulk_result_401 [of net "session_headers token" ids "action a = Pause" r] by simp
    with main_matched [OF p t f s ne i n] d q show ?thesis
      by (simp add: meth_get_request meth_put_request)
  qed
qed

theorem unauthorized_terminates_witness:
  "main (example_args Pause [''api''] False False) example_env
      (replying GET denied (service example_checks))
     = ([Http (get_request (session_headers ''secret''))], Inl (SysExit (Msg unauthorized)))
   \<and> main (example_args Pause [''api''] False False) example_env
      (replying PUT denied (service example_checks))
     = ([Http (get_request (session_headers ''secret'')),
         Http (put_request (session_headers ''secret'') [1, 3] True)],
        Inl (SysExit (Msg unauthorized)))"
proof -
  let ?a = "example_args Pause [''api''] False False"
  let ?g = "get_request (session_headers ''secret'')"
  let ?p = "put_request (session_headers ''secret'') [1, 3] True"
  let ?n1 = "replying GET denied (service example_checks)"
  let ?n2 = "replying PUT denied (service example_checks)"
  have e1: "Http ?g \<in> set (fst (main ?a example_env ?n1))" by code_simp
  have r1: "?n1 ?g = Inr denied" by (simp add: replying_def meth_get_request)
  have e2: "Http ?p \<in> set (fst (main ?a example_env ?n2))" by code_simp
  have r2: "?n2 ?p = Inr denied" by (simp add: replying_def meth_put_request)
  have s: "status_code denied = 401" by (simp add: denied_def)
  have g2: "\<And>g. meth g = GET \<Longrightarrow> fst (main ?a example_env ?n2) = [Http g, Http ?p] \<Longrightarrow> g = ?g"
  proof -
    fix g assume "meth g = GET" "fst (main ?a example_env ?n2) = [Http g, Http ?p]"
    moreover have "hd (fst (main ?a example_env ?n2)) = Http ?g" by code_simp
    ultimately show "g = ?g" by simp
  qed
  from unauthorized_terminates [OF e1 r1 s] unauthorized_terminates [OF e2 r2 s] g2
  show ?thesis
    by (auto simp: meth_get_request meth_put_request prod_eq_iff)
qed




text \<open>
  C3 at a matched check without an \<open>id\<close>: the match result is non-empty, the id list is
  empty, and the run still issues the write, whose body has the \<open>paused\<close> field only,
  and reports zero checks paused.
\<close>

theorem write_without_checkids:
  "map data (puts (fst (main (example_args Pause [''api''] False False) example_env
      (service [JObj [(''name'', JStr ''api'')]])))) = [payload [] True]
   \<and> payload [] True = [(''paused'', ''true'')]
   \<and> printed (fst (main (example_args Pause [''api''] False False) example_env
      (service [JObj [(''name'', JStr ''api'')]])))
       = [ReportHeader ''Paused'' 0]
   \<and> snd (main (example_args Pause [''api''] False False) example_env
      (service [JObj [(''name'', JStr ''api'')]])) = Inr ()"
  by code_simp

subsection \<open>Ids sent and pairs reported\<close>

lemma name_or_empty_shown: "name_or_empty c = Inr v \<Longrightarrow> \<exists>n. shown_name_of c = Inr n"
  by (cases c) (simp_all add: name_or_empty_def)

lemma filter_loop_shown:
  "filter_loop pats cs acc = Inr m \<Longrightarrow> \<forall>c\<in>set acc. \<exists>n. shown_name_of c = Inr n
   \<Longrightarrow> \<forall>c\<in>set m. \<exists>n. shown_name_of c = Inr n"
proof (induction cs arbitrary: acc)
  case Nil
  then show ?case by simp
next
  case (Cons c cs)
  from Cons.prems(1) obtain v where v: "name_or_empty c = Inr v"
    by (auto split: sum.splits)
  from name_or_empty_shown [OF v] Cons.prems(2)
  have "\<forall>c\<in>set (acc @ [c]). \<exists>n. shown_name_of c = Inr n" by auto
  with Cons.prems Cons.IH [of "acc @ [c]"] Cons.IH [of acc] show ?case
    by (auto simp: v split: sum.splits if_splits)
qed

lemma filter_cs_shown:
  "filter_cs pats cs = Inr m \<Longrightarrow> \<forall>c\<in>set m. \<exists>n. shown_name_of c = Inr n"
proof (induction cs arbitrary: m)
  case Nil
  then show ?case by simp
next
  case (Cons c cs)
  from Cons.prems obtain v where v: "name_or_empty c = Inr v"
    by (auto split: sum.splits)
  from Cons.prems Cons.IH name_or_empty_shown [OF v] show ?case
    by (auto simp: v split: sum.splits if_splits)
qed

lemma select_matched_shown:
  "select_matched sens checks pats = Inr matched
   \<Longrightarrow> \<forall>c\<in>set matched. \<exists>n. shown_name_of c = Inr n"
  using filter_loop_shown [of _ _ "[]" matched] filter_cs_shown [of _ _ matched]
  by (auto simp: select_matched_def filter_checks_def Let_def split: if_splits sum.splits)

lemma matched_names_total:
  "\<forall>c\<in>set cs. \<exists>n. shown_name_of c = Inr n
   \<Longrightarrow> \<exists>names. matched_names_of cs = Inr names \<and> map Inr names = map shown_name_of cs"
  by (induction cs) auto

lemma matched_ids_spec:
  "matched_ids_of cs = Inr ids
   \<Longrightarrow> map Inr ids
       = map (\<lambda>c. py_int (the (id_field c))) (filter (\<lambda>c. id_field c \<noteq> None) cs)"
proof (induction cs arbitrary: ids)
  case Nil
  then show ?case by simp
next
  case (Cons c cs)
  show ?case
  proof (cases c)
    case (JObj kvs)
    show ?thesis
    proof (cases "map_of kvs ''id''")
      case None
      then have "''id'' \<notin> fst ` set kvs" by (simp add: map_of_eq_None_iff)
      with Cons JObj None show ?thesis by simp
    next
      case (Some v)
      then have "''id'' \<in> fst ` set kvs" by (metis map_of_eq_None_iff option.distinct(1))
      with Cons JObj Some show ?thesis by (auto split: sum.splits)
    qed
  qed (use Cons in \<open>auto split: sum.splits if_splits\<close>)
qed

lemma zip_names_ids:
  assumes "map Inr names = map f cs" "map Inr ids = map g cs"
  shows "map (\<lambda>(n, i). (Inr n, Inr i)) (zip names ids) = map (\<lambda>c. (f c, g c)) cs"
proof -
  have "map (\<lambda>(n, i). (Inr n, Inr i)) (zip names ids) = zip (map Inr names) (map Inr ids)"
    by (simp add: zip_map_map)
  also have "\<dots> = zip (map f cs) (map g cs)" using assms by simp
  also have "\<dots> = map (\<lambda>c. (f c, g c)) cs" by (simp add: zip_map_map zip_same_conv_map)
  finally show ?thesis .
qed

text \<open>
  C9. For a non-empty match result whose ids convert, the id list is exactly the
  \<open>int\<close> of the \<open>id\<close> of the matched checks that have the key, in match order (the
  others are left out), and it is the list the write request carries. A dry run prints
  the preview header and, after a write that succeeded, the run prints the report
  header, each followed by the positional pairing of the names with that id list; a
  failed write prints nothing. When every matched check has the key, the pairs are,
  check by check, the name and the id of one check.
\<close>

theorem ids_sent_and_reported:
  assumes "patterns a \<noteq> []"
    and "get_token environ (token_env a) = Inr token"
    and "snd (fetch_all_checks net (session_headers token)) = Inr checks"
    and "select_matched (case_sensitive a) checks (patterns a) = Inr matched"
    and "matched \<noteq> []"
    and "matched_ids_of matched = Inr ids"
  shows "map Inr ids
           = map (\<lambda>c. py_int (the (id_field c))) (filter (\<lambda>c. id_field c \<noteq> None) matched)
         \<and> (\<not> dry_run a \<longrightarrow>
               puts (fst (main a environ net))
                 = [put_request (session_headers token) ids (action a = Pause)])
         \<and> (\<exists>names. map Inr names = map shown_name_of matched
               \<and> (dry_run a \<longrightarrow>
                     printed (fst (main a environ net))
                       = DryRunHeader (if action a = Pause then ''PAUSE'' else ''RESUME'')
                           (length ids)
                         # map (\<lambda>(n, i). Item n i) (zip names ids))
               \<and> (\<not> dry_run a \<longrightarrow>
                     printed (fst (main a environ net))
                       = (case snd (bulk_pause_or_resume net (session_headers token) ids
                                 (action a = Pause)) of
                            Inl x \<Rightarrow> []
                          | Inr d \<Rightarrow>
                              ReportHeader (if action a = Pause then ''Paused'' else ''Resumed'')
                                (length ids)
                              # map (\<lambda>(n, i). Item n i) (zip names ids)))
               \<and> ((\<forall>c\<in>set matched. id_field c \<noteq> None) \<longrightarrow>
                     map (\<lambda>(n, i). (Inr n, Inr i)) (zip names ids)
                       = map (\<lambda>c. (shown_name_of c, py_int (the (id_field c)))) matched))"
proof -
  from matched_names_total [OF select_matched_shown [OF assms(4)]] obtain names where
    n: "matched_names_of matched = Inr names" and
    nm: "map Inr names = map shown_name_of matched"
    by blast
  note i = matched_ids_spec [OF assms(6)]
  note m = main_matched [OF assms n]
  have w: "\<not> dry_run a \<Longrightarrow> puts (fst (main a environ net))
             = [put_request (session_headers token) ids (action a = Pause)]"
    by (simp add: m puts_append puts_item_lines meth_get_request meth_put_request
          split: sum.splits)
  have pd: "dry_run a \<Longrightarrow> printed (fst (main a environ net))
              = DryRunHeader (if action a = Pause then ''PAUSE'' else ''RESUME'') (length ids)
                # map (\<lambda>(n, i). Item n i) (zip names ids)"
    by (simp add: m printed_item_lines)
  have pw: "\<not> dry_run a \<Longrightarrow> printed (fst (main a environ net))
              = (case snd (bulk_pause_or_resume net (session_headers token) ids
                        (action a = Pause)) of
                   Inl x \<Rightarrow> []
                 | Inr d \<Rightarrow>
                     ReportHeader (if action a = Pause then ''Paused'' else ''Resumed'')
                       (length ids)
                     # map (\<lambda>(n, i). Item n i) (zip names ids))"
    by (simp add: m printed_item_lines split: sum.splits)
  have z: "\<forall>c\<in>set matched. id_field c \<noteq> None
           \<Longrightarrow> map (\<lambda>(n, i). (Inr n, Inr i)) (zip names ids)
               = map (\<lambda>c. (shown_name_of c, py_int (the (id_field c)))) matched"
  proof -
    assume "\<forall>c\<in>set matched. id_field c \<noteq> None"
    then have "filter (\<lambda>c. id_field c \<noteq> None) matched = matched" by simp
    with i have "map Inr ids = map (\<lambda>c. py_int (the (id_field c))) matched" by simp
    from zip_names_ids [OF nm this] show ?thesis .
  qed
  from i w pd pw z nm show ?thesis by blast
qed

theorem ids_sent_and_reported_witness:
  "map Inr [2, 2]
     = map (\<lambda>c. py_int (the (id_field c))) (filter (\<lambda>c. id_field c \<noteq> None) partial_checks)
   \<and> puts (fst (main (example_args Pause [''api''] False False) example_env
               (service partial_checks)))
       = [put_request (session_headers ''secret'') [2, 2] True]
   \<and> printed (fst (main (example_args Pause [''api''] False False) example_env
               (service partial_checks)))
       = [ReportHeader ''Paused'' 2,
          Item (Name (JStr ''api-a'')) 2, Item (Name (JStr ''api-b'')) 2]
   \<and> printed (fst (main (example_args Resume [''api''] True False) example_env
               (service example_checks)))
       = [DryRunHeader ''RESUME'' 2,
          Item (Name (JStr ''api-prod'')) 1, Item (Name (JStr ''API-internal'')) 3]"
proof -
  let ?a = "example_args Pause [''api''] False False"
  let ?b = "example_args Resume [''api''] True False"
  let ?h = "session_headers ''secret''"
  have p: "patterns ?a \<noteq> []" "patterns ?b \<noteq> []" by (simp_all add: example_args_def)
  have t: "get_token example_env (token_env ?a) = Inr ''secret''"
    "get_token example_env (token_env ?b) = Inr ''secret''"
    by (simp_all add: example_args_def example_env_def get_token_def)
  have f: "snd (fetch_all_checks (service partial_checks) ?h) = Inr (JArr partial_checks)"
    by code_simp
  have f': "snd (fetch_all_checks (service example_checks) ?h) = Inr (JArr example_checks)"
    by code_simp
  have s: "select_matched (case_sensitive ?a) (JArr partial_checks) (patterns ?a)
             = Inr partial_checks"
    by code_simp
  have s': "select_matched (case_sensitive ?b) (JArr example_checks) (patterns ?b)
             = Inr [JObj [(''id'', JInt 1), (''name'', JStr ''api-prod'')],
                    JObj [(''id'', JInt 3), (''name'', JStr ''API-internal'')]]"
    by code_simp
  have n: "partial_checks \<noteq> []" by (simp add: partial_checks_def)
  have i: "matched_ids_of partial_checks = Inr [2, 2]" by code_simp
  have i': "matched_ids_of [JObj [(''id'', JInt 1), (''name'', JStr ''api-prod'')],
                    JObj [(''id'', JInt 3), (''name'', JStr ''API-internal'')]] = Inr [1, 3]"
    by code_simp
  have d: "\<not> dry_run ?a" "action ?a = Pause" "dry_run ?b" "action ?b = Resume"
    by (simp_all add: example_args_def)
  have k: "snd (bulk_pause_or_resume (service partial_checks) ?h [2, 2] True)
             = Inr (JObj [(''message'', JStr ''Modification of checks was successful'')])"
    by code_simp
  from ids_sent_and_reported [OF p(1) t(1) f s n i] d(1,2) k
  have A: "map Inr [2, 2]
     = map (\<lambda>c. py_int (the (id_field c))) (filter (\<lambda>c. id_field c \<noteq> None) partial_checks)
   \<and> puts (fst (main ?a example_env (service partial_checks))) = [put_request ?h [2, 2] True]
   \<and> printed (fst (main ?a example_env (service partial_checks)))
       = [ReportHeader ''Paused'' 2,
          Item (Name (JStr ''api-a'')) 2, Item (Name (JStr ''api-b'')) 2]"
    by (auto simp: partial_checks_def)
  from ids_sent_and_reported [OF p(2) t(2) f' s' _ i'] d(3,4)
  have B: "printed (fst (main ?b example_env (service example_checks)))
       = [DryRunHeader ''RESUME'' 2,
          Item (Name (JStr ''api-prod'')) 1, Item (Name (JStr ''API-internal'')) 3]"
    by auto
  from A B show ?thesis by blast
qed

end
